theory Spec2Isabelle
  imports Main
begin

section \<open>Python strings\<close>

text \<open>
  A Python \<open>str\<close> is a sequence of Unicode code points, here a list of natural
  numbers. \<open>ascii\<close> turns a literal into its code points.
\<close>

type_synonym str = "nat list"

definition ascii :: "string \<Rightarrow> str" where
  "ascii s = map of_char s"

text \<open>
  The code points that \<open>str.strip()\<close> removes, which are those of \<open>str.isspace()\<close>:
  the ASCII controls and the space, U+0085, U+00A0, U+1680, U+2000 to U+200A, U+2028,
  U+2029, U+202F, U+205F and U+3000.
\<close>

definition is_space :: "nat \<Rightarrow> bool" where
  "is_space cp = (cp \<in> set [0x09, 0x0A, 0x0B, 0x0C, 0x0D, 0x1C, 0x1D, 0x1E, 0x1F, 0x20,
     0x85, 0xA0, 0x1680, 0x2000, 0x2001, 0x2002, 0x2003, 0x2004, 0x2005, 0x2006, 0x2007,
     0x2008, 0x2009, 0x200A, 0x2028, 0x2029, 0x202F, 0x205F, 0x3000])"

text \<open>The double quote, the single quote, \<open>=\<close> and \<open>#\<close>.\<close>

definition dquote :: nat where
  "dquote = 0x22"

definition squote :: nat where
  "squote = 0x27"

definition equals_sign :: nat where
  "equals_sign = 0x3D"

definition hash_sign :: nat where
  "hash_sign = 0x23"

text \<open>\<open>s.strip(chars)\<close>: drop the code points satisfying \<open>P\<close> from both ends.\<close>

definition strip_with :: "(nat \<Rightarrow> bool) \<Rightarrow> str \<Rightarrow> str" where
  "strip_with P s = rev (dropWhile P (rev (dropWhile P s)))"

definition strip :: "str \<Rightarrow> str" where
  "strip s = strip_with is_space s"

definition strip_char :: "nat \<Rightarrow> str \<Rightarrow> str" where
  "strip_char q s = strip_with (\<lambda>cp. cp = q) s"

text \<open>
  \<open>str.lower()\<close>. It is exact on ASCII and on the two code points outside ASCII
  whose lower case contains an ASCII code point (U+0130 gives \<open>i\<close> and U+0307, U+212A
  gives \<open>k\<close>). Every other code point outside ASCII has a lower case that is outside
  ASCII too, and stands for it here. The module uses \<open>lower()\<close> only to compare the
  result with three ASCII words, and that comparison comes out as in Python.
\<close>

definition lower_cp :: "nat \<Rightarrow> str" where
  "lower_cp cp =
     (if 0x41 \<le> cp \<and> cp \<le> 0x5A then [cp + 0x20]
      else if cp = 0x130 then [0x69, 0x307]
      else if cp = 0x212A then [0x6B]
      else [cp])"

definition lower :: "str \<Rightarrow> str" where
  "lower s = concat (map lower_cp s)"

text \<open>\<open>s.startswith('#')\<close>.\<close>

definition starts_with_hash :: "str \<Rightarrow> bool" where
  "starts_with_hash s = (case s of [] \<Rightarrow> False | cp # _ \<Rightarrow> cp = hash_sign)"

text \<open>\<open>s.split('=', 1)\<close>: at most one split, at the first \<open>=\<close>.\<close>

definition split_eq :: "str \<Rightarrow> str list" where
  "split_eq s =
     (if equals_sign \<in> set s
      then [takeWhile (\<lambda>cp. cp \<noteq> equals_sign) s,
            tl (dropWhile (\<lambda>cp. cp \<noteq> equals_sign) s)]
      else [s])"

text \<open>Truth value of an optional string: \<open>None\<close> and the empty string are false.\<close>

definition truthy :: "str option \<Rightarrow> bool" where
  "truthy x = (case x of None \<Rightarrow> False | Some s \<Rightarrow> s \<noteq> [])"

text \<open>\<open>a or b\<close> on optional strings.\<close>

definition py_or :: "str option \<Rightarrow> str option \<Rightarrow> str option" where
  "py_or a b = (if truthy a then a else b)"

text \<open>The test \<open>value.lower() in ('true', '1', 'yes')\<close>.\<close>

definition is_true_word :: "str \<Rightarrow> bool" where
  "is_true_word v = (lower v \<in> set [ascii ''true'', ascii ''1'', ascii ''yes''])"

section \<open>The configuration and its surroundings\<close>

text \<open>The fields of the singleton \<open>Config\<close> (src/config.py, \<open>Config.__init__\<close>).\<close>

record config =
  aws_bedrock_api_key :: "str option"
  model_id :: str
  aws_region :: str
  use_iam_role :: bool

definition init_config :: config where
  "init_config =
     \<lparr>aws_bedrock_api_key = None,
      model_id = ascii ''us.anthropic.claude-sonnet-4-20250514-v1:0'',
      aws_region = ascii ''us-east-1'',
      use_iam_role = False\<rparr>"

text \<open>\<open>os.environ\<close>: a dictionary from names to values.\<close>

type_synonym environ = "str \<rightharpoonup> str"

text \<open>
  The dotenv file at the path: it does not exist, or looking at it, opening it or
  decoding its text raises (a directory, no permission, bytes that are not text), or it
  is read as a list of lines (each with or without its line terminator).
\<close>

datatype dotenv_file = NoFile | Unreadable | Lines "str list"

text \<open>
  The exceptions. \<open>MissingCredentialError\<close> and \<open>MissingRegionError\<close> are the two
  \<open>ValueError\<close>s of \<open>Config.validate\<close>, told apart by their message.
  \<open>UnpackError\<close> is the \<open>ValueError\<close> of the tuple assignment
  \<open>key, value = line.split('=', 1)\<close> when the right-hand side does not have two
  elements. \<open>FileError\<close> is the \<open>OSError\<close> or \<open>UnicodeDecodeError\<close> of reading
  a file. \<open>PutenvError\<close> is the \<open>ValueError\<close> or \<open>UnicodeEncodeError\<close> of
  \<open>os.environ[name] = value\<close>, and \<open>PrintError\<close> the \<open>UnicodeEncodeError\<close> of
  \<open>print\<close>.

  An entry point that raises is modelled by the exception alone: the model does not
  follow the configuration and the environment after it.
\<close>

datatype error =
  MissingCredentialError | MissingRegionError | UnpackError | FileError | PutenvError | PrintError

section \<open>Source readers\<close>

text \<open>\<open>Config.load_from_env\<close>.\<close>

definition load_from_env :: "config \<Rightarrow> environ \<Rightarrow> config" where
  "load_from_env c env =
     (let c1 = c\<lparr>aws_bedrock_api_key := env (ascii ''AWS_BEDROCK_API_KEY'')\<rparr>;
          c2 = (case env (ascii ''AWS_BEDROCK_MODEL_ID'') of
                  None \<Rightarrow> c1
                | Some m \<Rightarrow> if m \<noteq> [] then c1\<lparr>model_id := m\<rparr> else c1);
          c3 = (case py_or (env (ascii ''AWS_REGION'')) (env (ascii ''AWS_DEFAULT_REGION'')) of
                  None \<Rightarrow> c2
                | Some r \<Rightarrow> if r \<noteq> [] then c2\<lparr>aws_region := r\<rparr> else c2);
          use_iam = is_true_word (case env (ascii ''USE_IAM_ROLE'') of
                                    None \<Rightarrow> []
                                  | Some v \<Rightarrow> v)
      in if use_iam then c3\<lparr>use_iam_role := True\<rparr> else c3)"

text \<open>\<open>value.strip().strip('"').strip("'")\<close>.\<close>

definition dotenv_value :: "str \<Rightarrow> str" where
  "dotenv_value v = strip_char squote (strip_char dquote (strip v))"

text \<open>
  One line of the dotenv file, up to the assignment: \<open>Inr None\<close> for a line that the
  loop skips, \<open>Inr (Some (key, value))\<close> for a line that it assigns.
\<close>

definition parse_line :: "str \<Rightarrow> error + (str \<times> str) option" where
  "parse_line raw =
     (let line = strip raw in
      if line \<noteq> [] \<and> \<not> starts_with_hash line \<and> equals_sign \<in> set line
      then (case split_eq line of
              [key, val] \<Rightarrow> Inr (Some (strip key, dotenv_value val))
            | _ \<Rightarrow> Inl UnpackError)
      else Inr None)"

text \<open>The \<open>if\<close>/\<open>elif\<close> chain on the key.\<close>

definition dotenv_assign :: "config \<Rightarrow> str \<Rightarrow> str \<Rightarrow> config" where
  "dotenv_assign c key val =
     (if key = ascii ''AWS_BEDROCK_API_KEY'' then c\<lparr>aws_bedrock_api_key := Some val\<rparr>
      else if key = ascii ''AWS_BEDROCK_MODEL_ID'' then c\<lparr>model_id := val\<rparr>
      else if key \<in> set [ascii ''AWS_REGION'', ascii ''AWS_DEFAULT_REGION'']
        then c\<lparr>aws_region := val\<rparr>
      else if key = ascii ''USE_IAM_ROLE'' then c\<lparr>use_iam_role := is_true_word val\<rparr>
      else c)"

definition load_dotenv_line :: "config \<Rightarrow> str \<Rightarrow> error + config" where
  "load_dotenv_line c raw =
     (case parse_line raw of
        Inl e \<Rightarrow> Inl e
      | Inr None \<Rightarrow> Inr c
      | Inr (Some (key, val)) \<Rightarrow> Inr (dotenv_assign c key val))"

text \<open>The loop over the lines of the file; an exception ends it.\<close>

fun load_dotenv_lines :: "config \<Rightarrow> str list \<Rightarrow> error + config" where
  "load_dotenv_lines c [] = Inr c"
| "load_dotenv_lines c (l # ls) =
     (case load_dotenv_line c l of
        Inl e \<Rightarrow> Inl e
      | Inr c' \<Rightarrow> load_dotenv_lines c' ls)"

text \<open>\<open>Config.load_from_dotenv\<close>.\<close>

definition load_from_dotenv :: "config \<Rightarrow> dotenv_file \<Rightarrow> error + config" where
  "load_from_dotenv c dotenv =
     (case dotenv of
        NoFile \<Rightarrow> Inr c
      | Unreadable \<Rightarrow> Inl FileError
      | Lines ls \<Rightarrow> load_dotenv_lines c ls)"

section \<open>Setters, mode, publisher, validator\<close>

definition set_api_key :: "config \<Rightarrow> str \<Rightarrow> config" where
  "set_api_key c api_key = c\<lparr>aws_bedrock_api_key := Some api_key\<rparr>"

definition set_model_id :: "config \<Rightarrow> str \<Rightarrow> config" where
  "set_model_id c m = c\<lparr>model_id := m\<rparr>"

definition set_aws_region :: "config \<Rightarrow> str \<Rightarrow> config" where
  "set_aws_region c region = c\<lparr>aws_region := region\<rparr>"

definition set_use_iam_role :: "config \<Rightarrow> bool \<Rightarrow> config" where
  "set_use_iam_role c use_iam = c\<lparr>use_iam_role := use_iam\<rparr>"

text \<open>\<open>Config.authentication_mode\<close>.\<close>

definition authentication_mode :: "config \<Rightarrow> str" where
  "authentication_mode c =
     (if truthy (aws_bedrock_api_key c) \<and> \<not> use_iam_role c
      then ascii ''api_key'' else ascii ''iam_role'')"

text \<open>
  Writing the process environment and the standard output, on a POSIX system whose
  file-system encoding and standard output are UTF-8 (the standard output open, with
  the default, strict, error handling). \<open>os.environ[name] = value\<close> raises when the value
  has a NUL or a surrogate code point other than U+DC80 to U+DCFF (those stand for
  undecodable bytes and are written back as such). \<open>print\<close> raises when the text has any
  surrogate code point.
\<close>

definition putenv_ok :: "str \<Rightarrow> bool" where
  "putenv_ok v =
     list_all (\<lambda>cp. cp \<noteq> 0 \<and> (cp < 0xD800 \<or> 0xDFFF < cp \<or> (0xDC80 \<le> cp \<and> cp \<le> 0xDCFF))) v"

definition print_ok :: "str \<Rightarrow> bool" where
  "print_ok v = list_all (\<lambda>cp. cp < 0xD800 \<or> 0xDFFF < cp) v"

text \<open>
  A statement that writes the environment gives the exception, if it raises, and the
  environment it leaves; \<open>and_then\<close> runs the next statement unless the first raised.
\<close>

definition environ_set :: "environ \<Rightarrow> str \<Rightarrow> str \<Rightarrow> error option \<times> environ" where
  "environ_set env name v =
     (if putenv_ok v then (None, env(name \<mapsto> v)) else (Some PutenvError, env))"

definition and_then ::
  "error option \<times> environ \<Rightarrow> (environ \<Rightarrow> error option \<times> environ) \<Rightarrow> error option \<times> environ" where
  "and_then r f = (case fst r of Some e \<Rightarrow> r | None \<Rightarrow> f (snd r))"

text \<open>
  \<open>Config.setup_environment\<close>: the exception, if it raises, and the environment it
  leaves. The configuration is only read. Of the notices it prints, the two fixed texts
  always print; the one with the region can raise.
\<close>

definition setup_environment :: "config \<Rightarrow> environ \<Rightarrow> error option \<times> environ" where
  "setup_environment c env =
     and_then
       (if model_id c \<noteq> []
        then environ_set env (ascii ''AWS_BEDROCK_MODEL_ID'') (model_id c)
        else (None, env))
       (\<lambda>e1. and_then
          (if aws_region c \<noteq> []
           then and_then (environ_set e1 (ascii ''AWS_REGION'') (aws_region c))
                  (\<lambda>e. if e (ascii ''AWS_DEFAULT_REGION'') = None
                       then environ_set e (ascii ''AWS_DEFAULT_REGION'') (aws_region c)
                       else (None, e))
           else (None, e1))
          (\<lambda>e2. if authentication_mode c = ascii ''api_key''
                then (case aws_bedrock_api_key c of
                        None \<Rightarrow> (None, e2)
                      | Some k \<Rightarrow>
                          if k \<noteq> [] then environ_set e2 (ascii ''AWS_BEDROCK_API_KEY'') k
                          else (None, e2))
                else (let e3 = (if e2 (ascii ''AWS_BEDROCK_API_KEY'') \<noteq> None
                                then e2(ascii ''AWS_BEDROCK_API_KEY'' := None)
                                else e2)
                      in if print_ok (aws_region c) then (None, e3)
                         else (Some PrintError, e3))))"

text \<open>\<open>Config.is_configured\<close>.\<close>

definition is_configured :: "config \<Rightarrow> bool" where
  "is_configured c = (aws_bedrock_api_key c \<noteq> None \<or> use_iam_role c)"

text \<open>\<open>Config.validate\<close>: it returns nothing and changes nothing, or raises.\<close>

definition validate :: "config \<Rightarrow> error + unit" where
  "validate c =
     (if authentication_mode c = ascii ''api_key''
      then (if \<not> truthy (aws_bedrock_api_key c) then Inl MissingCredentialError else Inr ())
      else (if aws_region c = [] then Inl MissingRegionError else Inr ()))"

section \<open>Entry points\<close>

text \<open>
  The test of the managed runtime:
  \<open>os.environ.get('AWS_EXECUTION_ENV') or os.environ.get('AWS_LAMBDA_FUNCTION_NAME')\<close>.
\<close>

definition in_lambda :: "environ \<Rightarrow> bool" where
  "in_lambda env =
     truthy (py_or (env (ascii ''AWS_EXECUTION_ENV'')) (env (ascii ''AWS_LAMBDA_FUNCTION_NAME'')))"

text \<open>
  The explicit arguments of \<open>setup_config\<close>, after the two readers: each is applied
  when it is true as a Python value (\<open>if api_key:\<close>), the flag when it is not
  \<open>None\<close>.
\<close>

definition apply_explicit ::
  "config \<Rightarrow> str option \<Rightarrow> str option \<Rightarrow> str option \<Rightarrow> bool option \<Rightarrow> config" where
  "apply_explicit c api_key m region use_iam =
     (let c1 = (case api_key of None \<Rightarrow> c
                | Some k \<Rightarrow> if k \<noteq> [] then set_api_key c k else c);
          c2 = (case m of None \<Rightarrow> c1
                | Some v \<Rightarrow> if v \<noteq> [] then set_model_id c1 v else c1);
          c3 = (case region of None \<Rightarrow> c2
                | Some r \<Rightarrow> if r \<noteq> [] then set_aws_region c2 r else c2)
      in (case use_iam of None \<Rightarrow> c3 | Some b \<Rightarrow> set_use_iam_role c3 b))"

text \<open>The automatic detection at the end of \<open>setup_config\<close>.\<close>

definition auto_detect :: "config \<Rightarrow> environ \<Rightarrow> config" where
  "auto_detect c env =
     (if \<not> truthy (aws_bedrock_api_key c) \<and> \<not> use_iam_role c
      then (if in_lambda env then set_use_iam_role c True else c)
      else c)"

text \<open>
  \<open>setup_config\<close>, on the singleton \<open>c\<close>, the dotenv file at the default path and
  the process environment; it returns the configuration and leaves the environment.
\<close>

definition setup_config ::
  "config \<Rightarrow> dotenv_file \<Rightarrow> environ \<Rightarrow>
   str option \<Rightarrow> str option \<Rightarrow> str option \<Rightarrow> bool option \<Rightarrow> bool \<Rightarrow> bool \<Rightarrow>
   error + (config \<times> environ)" where
  "setup_config c dotenv env api_key m region use_iam use_dotenv use_env =
     (case (if use_dotenv then load_from_dotenv c dotenv else Inr c) of
        Inl e \<Rightarrow> Inl e
      | Inr c1 \<Rightarrow>
          (let c2 = (if use_env then load_from_env c1 env else c1);
               c3 = apply_explicit c2 api_key m region use_iam;
               c4 = auto_detect c3 env;
               published = setup_environment c4 env
           in (case fst published of
                 Some e \<Rightarrow> Inl e
               | None \<Rightarrow> Inr (c4, snd published))))"

text \<open>\<open>ensure_configured\<close>.\<close>

definition ensure_configured ::
  "config \<Rightarrow> dotenv_file \<Rightarrow> environ \<Rightarrow> error + (config \<times> environ)" where
  "ensure_configured c dotenv env =
     (if \<not> is_configured c
      then (case load_from_dotenv c dotenv of
              Inl e \<Rightarrow> Inl e
            | Inr c1 \<Rightarrow>
                (let c2 = load_from_env c1 env;
                     c3 = (if \<not> is_configured c2
                           then (if in_lambda env then set_use_iam_role c2 True else c2)
                           else c2);
                     published = setup_environment c3 env
                 in (case fst published of
                       Some e \<Rightarrow> Inl e
                     | None \<Rightarrow>
                         (case validate c3 of
                            Inl e \<Rightarrow> Inl e
                          | Inr _ \<Rightarrow> Inr (c3, snd published)))))
      else (case validate c of
              Inl e \<Rightarrow> Inl e
            | Inr _ \<Rightarrow> Inr (c, env)))"

section \<open>Predicates of the statements\<close>



text \<open>
  A configuration that \<open>setup_environment\<close> publishes without an exception: the values
  it writes can be written, and the region can be printed when the mode is \<open>iam_role\<close>.
\<close>

definition publishable :: "config \<Rightarrow> bool" where
  "publishable c =
     (putenv_ok (model_id c) \<and> putenv_ok (aws_region c) \<and>
      (if truthy (aws_bedrock_api_key c) \<and> \<not> use_iam_role c
       then (case aws_bedrock_api_key c of None \<Rightarrow> True | Some k \<Rightarrow> putenv_ok k)
       else print_ok (aws_region c)))"

text \<open>A string that neither starts nor ends with a code point satisfying \<open>P\<close>.\<close>

definition ends_free :: "(nat \<Rightarrow> bool) \<Rightarrow> str \<Rightarrow> bool" where
  "ends_free P s = (case s of [] \<Rightarrow> True | _ \<Rightarrow> \<not> P (hd s) \<and> \<not> P (last s))"

section \<open>Stripping\<close>

lemma dropWhile_all: "\<forall>x\<in>set xs. P x \<Longrightarrow> dropWhile P xs = []"
  by (induction xs) auto

lemma rstrip_Cons_all:
  "\<forall>y\<in>set xs. P y \<Longrightarrow>
   rev (dropWhile P (rev (x # xs))) = (if P x then [] else [x])"
  by (simp add: dropWhile_append dropWhile_all)

lemma rstrip_Cons_some:
  "\<not> (\<forall>y\<in>set xs. P y) \<Longrightarrow>
   rev (dropWhile P (rev (x # xs))) = x # rev (dropWhile P (rev xs))"
  by (simp add: dropWhile_append)

lemma lstrip_rstrip_commute:
  "dropWhile P (rev (dropWhile P (rev s))) = rev (dropWhile P (rev (dropWhile P s)))"
proof (induction s)
  case Nil
  show ?case by simp
next
  case (Cons x xs)
  show ?case
  proof (cases "\<forall>y\<in>set xs. P y")
    case True
    then have r: "rev (dropWhile P (rev (x # xs))) = (if P x then [] else [x])"
      by (rule rstrip_Cons_all)
    from True have l: "dropWhile P (x # xs) = (if P x then [] else x # xs)"
      by (simp add: dropWhile_all)
    show ?thesis
    proof (cases "P x")
      case True
      with l r have "dropWhile P (x # xs) = []" "rev (dropWhile P (rev (x # xs))) = []"
        by simp_all
      then show ?thesis by (simp only: rev.simps dropWhile.simps)
    next
      case False
      with l r have l': "dropWhile P (x # xs) = x # xs"
        and r': "rev (dropWhile P (rev (x # xs))) = [x]"
        by simp_all
      have "dropWhile P [x] = [x]"
        using False by simp
      then show ?thesis by (simp only: l' r')
    qed
  next
    case False
    then have r: "rev (dropWhile P (rev (x # xs))) = x # rev (dropWhile P (rev xs))"
      by (rule rstrip_Cons_some)
    show ?thesis
    proof (cases "P x")
      case True
      then have l: "dropWhile P (x # xs) = dropWhile P xs" by simp
      have "dropWhile P (x # rev (dropWhile P (rev xs))) = dropWhile P (rev (dropWhile P (rev xs)))"
        using True by simp
      then show ?thesis unfolding l r using Cons.IH by simp
    next
      case nP: False
      then have l: "dropWhile P (x # xs) = x # xs" by simp
      have "dropWhile P (x # rev (dropWhile P (rev xs))) = x # rev (dropWhile P (rev xs))"
        using nP by simp
      then show ?thesis unfolding l r by simp
    qed
  qed
qed

lemma strip_with_lstrip: "strip_with P (dropWhile P s) = strip_with P s"
  by (simp add: strip_with_def dropWhile_idem)

lemma strip_with_rstrip: "strip_with P (rev (dropWhile P (rev s))) = strip_with P s"
proof -
  have "strip_with P (rev (dropWhile P (rev s))) =
        rev (dropWhile P (rev (dropWhile P (rev (dropWhile P (rev s))))))"
    by (simp add: strip_with_def)
  also have "\<dots> = rev (dropWhile P (rev (rev (dropWhile P (rev (dropWhile P s))))))"
    by (simp only: lstrip_rstrip_commute)
  also have "\<dots> = strip_with P s"
    by (simp add: strip_with_def dropWhile_idem)
  finally show ?thesis .
qed

lemma strip_with_core:
  assumes "\<forall>ch\<in>set a. P ch" and "\<forall>ch\<in>set b. P ch"
    and "core = [] \<or> (\<not> P (hd core) \<and> \<not> P (last core))"
  shows "strip_with P (a @ core @ b) = core"
proof (cases "core = []")
  case True
  with assms(1,2) show ?thesis by (simp add: strip_with_def dropWhile_append dropWhile_all)
next
  case False
  with assms have h: "\<not> P (hd core)" and l: "\<not> P (last core)" by auto
  from False h have "dropWhile P (core @ b) = core @ b"
    by (cases core) simp_all
  with assms(1) have "dropWhile P (a @ core @ b) = core @ b"
    by (simp add: dropWhile_append)
  moreover from False l have "dropWhile P (rev core) = rev core"
    by (cases core rule: rev_cases) simp_all
  with assms(2) have "dropWhile P (rev (core @ b)) = rev core"
    by (simp add: dropWhile_append)
  ultimately show ?thesis by (simp add: strip_with_def)
qed

lemma strip_around_eq:
  assumes "\<not> P q"
  shows "strip_with P (k @ q # r) = dropWhile P k @ q # rev (dropWhile P (rev r))"
proof -
  from assms have "dropWhile P (k @ q # r) = dropWhile P k @ q # r"
    by (simp add: dropWhile_append)
  moreover from assms have "dropWhile P (rev r @ q # rev (dropWhile P k)) =
      dropWhile P (rev r) @ q # rev (dropWhile P k)"
    by (simp add: dropWhile_append)
  ultimately show ?thesis by (simp add: strip_with_def)
qed

lemma not_space_eq: "\<not> is_space equals_sign"
  by (simp add: is_space_def equals_sign_def)

lemma split_eq_first:
  "equals_sign \<notin> set k \<Longrightarrow> split_eq (k @ equals_sign # r) = [k, r]"
  by (simp add: split_eq_def takeWhile_append dropWhile_append)

lemma parse_line_assignment:
  assumes "equals_sign \<notin> set k" and "\<not> starts_with_hash (dropWhile is_space k)"
  shows "parse_line (k @ equals_sign # r) = Inr (Some (strip k, dotenv_value r))"
proof -
  define k' where "k' = dropWhile is_space k"
  define r' where "r' = rev (dropWhile is_space (rev r))"
  have line: "strip (k @ equals_sign # r) = k' @ equals_sign # r'"
    unfolding strip_def k'_def r'_def using not_space_eq by (rule strip_around_eq)
  have "set k' \<subseteq> set k"
    unfolding k'_def by (rule set_dropWhileD [THEN subsetI])
  with assms(1) have "equals_sign \<notin> set k'" by blast
  then have split: "split_eq (k' @ equals_sign # r') = [k', r']"
    by (rule split_eq_first)
  have "\<not> starts_with_hash k'"
    unfolding k'_def by (rule assms(2))
  then have "\<not> starts_with_hash (k' @ equals_sign # r')"
    by (cases k') (simp_all add: starts_with_hash_def equals_sign_def hash_sign_def)
  moreover have "strip k' = strip k"
    by (simp add: strip_def k'_def strip_with_lstrip)
  moreover have "dotenv_value r' = dotenv_value r"
    by (simp add: dotenv_value_def strip_def r'_def strip_with_rstrip)
  ultimately show ?thesis
    by (simp add: parse_line_def line split)
qed

lemma ends_free_iff: "ends_free P s \<longleftrightarrow> s = [] \<or> (\<not> P (hd s) \<and> \<not> P (last s))"
  by (cases s) (simp_all add: ends_free_def)

lemma rev_dropWhile_takeWhile:
  "t = rev (dropWhile P (rev t)) @ rev (takeWhile P (rev t))"
proof -
  have "takeWhile P (rev t) @ dropWhile P (rev t) = rev t"
    by (rule takeWhile_dropWhile_id)
  then have "rev (takeWhile P (rev t) @ dropWhile P (rev t)) = rev (rev t)"
    by (rule arg_cong)
  then have "rev (dropWhile P (rev t)) @ rev (takeWhile P (rev t)) = t"
    by (simp only: rev_append rev_rev_ident)
  then show ?thesis by (rule sym)
qed

lemma strip_with_parts:
  "\<exists>a b. s = a @ strip_with P s @ b \<and> list_all P a \<and> list_all P b"
proof -
  define t where "t = dropWhile P s"
  have st: "strip_with P s = rev (dropWhile P (rev t))"
    by (simp add: strip_with_def t_def)
  have t: "t = strip_with P s @ rev (takeWhile P (rev t))"
    unfolding st by (rule rev_dropWhile_takeWhile)
  have "s = takeWhile P s @ t"
    by (simp add: t_def)
  with t have "s = takeWhile P s @ strip_with P s @ rev (takeWhile P (rev t))"
    by simp
  moreover have "list_all P (takeWhile P s)"
    by (simp add: list_all_iff) (meson set_takeWhileD)
  moreover have "list_all P (rev (takeWhile P (rev t)))"
    by (simp add: list_all_iff) (meson set_takeWhileD)
  ultimately show ?thesis by blast
qed

lemma strip_with_ends_free: "ends_free P (strip_with P s)"
proof (cases "strip_with P s = []")
  case True
  then show ?thesis by (simp add: ends_free_iff)
next
  case False
  define t where "t = dropWhile P s"
  have st: "strip_with P s = rev (dropWhile P (rev t))"
    by (simp add: strip_with_def t_def)
  with False have ne: "dropWhile P (rev t) \<noteq> []"
    by simp
  then have "\<not> P (hd (dropWhile P (rev t)))"
    by (rule hd_dropWhile)
  with ne have l: "\<not> P (last (strip_with P s))"
    by (simp add: st last_rev)
  from ne have tne: "t \<noteq> []"
    by auto
  then have "\<not> P (hd t)"
    unfolding t_def by (rule hd_dropWhile)
  moreover have "t = strip_with P s @ rev (takeWhile P (rev t))"
    unfolding st by (rule rev_dropWhile_takeWhile)
  with False have "hd t = hd (strip_with P s)"
    by (metis hd_append2)
  ultimately have "\<not> P (hd (strip_with P s))"
    by simp
  with l show ?thesis by (simp add: ends_free_iff)
qed

lemma strip_with_layer:
  assumes "list_all P a" and "list_all P b" and "ends_free P core"
  shows "strip_with P (a @ core @ b) = core"
  using assms by (intro strip_with_core) (simp_all add: list_all_iff ends_free_iff)

section \<open>The value of a dotenv line\<close>

text \<open>
  C8, as the code has it. The value of a \<open>KEY=value\<close> line is what is left of the
  text after the first \<open>=\<close> when the surrounding whitespace, then every leading and
  every trailing double quote, then every leading and every trailing single quote are
  removed, in this order and each only once: any number of quotes on either side, whether
  or not the two sides match. Exactly: the value is \<open>v\<close> if and only if the text is
  whitespace, double quotes, single quotes, \<open>v\<close>, single quotes, double quotes and
  whitespace, where what stands between the whitespace neither starts nor ends with
  whitespace, what stands between the double quotes neither starts nor ends with a
  double quote, and \<open>v\<close> neither starts nor ends with a single quote.
\<close>

theorem dotenv_value_layers:
  assumes "equals_sign \<notin> set k" and "\<not> starts_with_hash (dropWhile is_space k)"
  shows "parse_line (k @ [equals_sign] @ raw) = Inr (Some (strip k, v)) \<longleftrightarrow>
     (\<exists>ws1 dq1 sq1 sq2 dq2 ws2.
        raw = ws1 @ (dq1 @ (sq1 @ v @ sq2) @ dq2) @ ws2 \<and>
        list_all is_space ws1 \<and> list_all is_space ws2 \<and>
        ends_free is_space (dq1 @ (sq1 @ v @ sq2) @ dq2) \<and>
        list_all (\<lambda>cp. cp = dquote) dq1 \<and> list_all (\<lambda>cp. cp = dquote) dq2 \<and>
        ends_free (\<lambda>cp. cp = dquote) (sq1 @ v @ sq2) \<and>
        list_all (\<lambda>cp. cp = squote) sq1 \<and> list_all (\<lambda>cp. cp = squote) sq2 \<and>
        ends_free (\<lambda>cp. cp = squote) v)"
proof -
  have "parse_line (k @ equals_sign # raw) = Inr (Some (strip k, dotenv_value raw))"
    using assms by (rule parse_line_assignment)
  then have p: "parse_line (k @ [equals_sign] @ raw) = Inr (Some (strip k, v)) \<longleftrightarrow>
      dotenv_value raw = v"
    by auto
  show ?thesis
    unfolding p
  proof
    assume "dotenv_value raw = v"
    then have v: "v = strip_char squote (strip_char dquote (strip raw))"
      by (simp add: dotenv_value_def)
    define out where "out = strip raw"
    define mid where "mid = strip_char dquote out"
    obtain ws1 ws2 where 1: "raw = ws1 @ out @ ws2" "list_all is_space ws1"
      "list_all is_space ws2"
      unfolding out_def strip_def using strip_with_parts [of raw is_space] by blast
    obtain dq1 dq2 where 2: "out = dq1 @ mid @ dq2" "list_all (\<lambda>cp. cp = dquote) dq1"
      "list_all (\<lambda>cp. cp = dquote) dq2"
      unfolding mid_def strip_char_def
      using strip_with_parts [of out "\<lambda>cp. cp = dquote"] by blast
    have v': "v = strip_char squote mid"
      by (simp add: v mid_def out_def)
    obtain sq1 sq2 where 3: "mid = sq1 @ v @ sq2" "list_all (\<lambda>cp. cp = squote) sq1"
      "list_all (\<lambda>cp. cp = squote) sq2"
      unfolding v' strip_char_def
      using strip_with_parts [of mid "\<lambda>cp. cp = squote"] by blast
    have 4: "ends_free is_space out"
      unfolding out_def strip_def by (rule strip_with_ends_free)
    have 5: "ends_free (\<lambda>cp. cp = dquote) mid"
      unfolding mid_def strip_char_def by (rule strip_with_ends_free)
    have 6: "ends_free (\<lambda>cp. cp = squote) v"
      unfolding v' strip_char_def by (rule strip_with_ends_free)
    from 1 2 3 4 5 6 show "\<exists>ws1 dq1 sq1 sq2 dq2 ws2.
        raw = ws1 @ (dq1 @ (sq1 @ v @ sq2) @ dq2) @ ws2 \<and>
        list_all is_space ws1 \<and> list_all is_space ws2 \<and>
        ends_free is_space (dq1 @ (sq1 @ v @ sq2) @ dq2) \<and>
        list_all (\<lambda>cp. cp = dquote) dq1 \<and> list_all (\<lambda>cp. cp = dquote) dq2 \<and>
        ends_free (\<lambda>cp. cp = dquote) (sq1 @ v @ sq2) \<and>
        list_all (\<lambda>cp. cp = squote) sq1 \<and> list_all (\<lambda>cp. cp = squote) sq2 \<and>
        ends_free (\<lambda>cp. cp = squote) v"
      by (intro exI [of _ ws1] exI [of _ dq1] exI [of _ sq1] exI [of _ sq2] exI [of _ dq2]
          exI [of _ ws2]) simp
  next
    assume "\<exists>ws1 dq1 sq1 sq2 dq2 ws2.
        raw = ws1 @ (dq1 @ (sq1 @ v @ sq2) @ dq2) @ ws2 \<and>
        list_all is_space ws1 \<and> list_all is_space ws2 \<and>
        ends_free is_space (dq1 @ (sq1 @ v @ sq2) @ dq2) \<and>
        list_all (\<lambda>cp. cp = dquote) dq1 \<and> list_all (\<lambda>cp. cp = dquote) dq2 \<and>
        ends_free (\<lambda>cp. cp = dquote) (sq1 @ v @ sq2) \<and>
        list_all (\<lambda>cp. cp = squote) sq1 \<and> list_all (\<lambda>cp. cp = squote) sq2 \<and>
        ends_free (\<lambda>cp. cp = squote) v"
    then obtain ws1 dq1 sq1 sq2 dq2 ws2 where
      raw: "raw = ws1 @ (dq1 @ (sq1 @ v @ sq2) @ dq2) @ ws2" and
      ws: "list_all is_space ws1" "list_all is_space ws2" and
      out: "ends_free is_space (dq1 @ (sq1 @ v @ sq2) @ dq2)" and
      dq: "list_all (\<lambda>cp. cp = dquote) dq1" "list_all (\<lambda>cp. cp = dquote) dq2" and
      mid: "ends_free (\<lambda>cp. cp = dquote) (sq1 @ v @ sq2)" and
      sq: "list_all (\<lambda>cp. cp = squote) sq1" "list_all (\<lambda>cp. cp = squote) sq2" and
      core: "ends_free (\<lambda>cp. cp = squote) v"
      by blast
    have 1: "strip raw = dq1 @ (sq1 @ v @ sq2) @ dq2"
      unfolding raw strip_def using ws out by (rule strip_with_layer)
    have 2: "strip_char dquote (dq1 @ (sq1 @ v @ sq2) @ dq2) = sq1 @ v @ sq2"
      unfolding strip_char_def using dq mid by (rule strip_with_layer)
    have 3: "strip_char squote (sq1 @ v @ sq2) = v"
      unfolding strip_char_def using sq core by (rule strip_with_layer)
    show "dotenv_value raw = v"
      unfolding dotenv_value_def by (simp only: 1 2 3)
  qed
qed

lemma eval_defs:
  "equals_sign = 0x3D" "hash_sign = 0x23" "dquote = 0x22" "squote = 0x27"
  by (simp_all add: equals_sign_def hash_sign_def dquote_def squote_def)

theorem dotenv_value_layers_witness:
  "parse_line (ascii ''K'' @ [equals_sign] @ ([squote, dquote] @ ascii ''x'' @ [dquote, squote]))
     = Inr (Some (ascii ''K'', [dquote] @ ascii ''x'' @ [dquote])) \<and>
   parse_line (ascii ''K'' @ [equals_sign] @ ([dquote] @ ascii '' eu '' @ [dquote]))
     = Inr (Some (ascii ''K'', ascii '' eu ''))"
proof -
  have k1: "equals_sign \<notin> set (ascii ''K'')"
    by (simp add: ascii_def equals_sign_def)
  have k2: "\<not> starts_with_hash (dropWhile is_space (ascii ''K''))"
    by (simp add: ascii_def starts_with_hash_def is_space_def hash_sign_def)
  have k3: "strip (ascii ''K'') = ascii ''K''"
    by (simp add: ascii_def strip_def strip_with_def is_space_def)
  let ?raw1 = "[squote, dquote] @ ascii ''x'' @ [dquote, squote]"
  let ?v1 = "[dquote] @ ascii ''x'' @ [dquote]"
  have "\<exists>ws1 dq1 sq1 sq2 dq2 ws2.
        ?raw1 = ws1 @ (dq1 @ (sq1 @ ?v1 @ sq2) @ dq2) @ ws2 \<and>
        list_all is_space ws1 \<and> list_all is_space ws2 \<and>
        ends_free is_space (dq1 @ (sq1 @ ?v1 @ sq2) @ dq2) \<and>
        list_all (\<lambda>cp. cp = dquote) dq1 \<and> list_all (\<lambda>cp. cp = dquote) dq2 \<and>
        ends_free (\<lambda>cp. cp = dquote) (sq1 @ ?v1 @ sq2) \<and>
        list_all (\<lambda>cp. cp = squote) sq1 \<and> list_all (\<lambda>cp. cp = squote) sq2 \<and>
        ends_free (\<lambda>cp. cp = squote) ?v1"
    by (intro exI [of _ "[]"] exI [of _ "[squote]"])
      (simp add: ends_free_def is_space_def dquote_def squote_def ascii_def)
  with dotenv_value_layers [OF k1 k2, of ?raw1 ?v1]
  have 1: "parse_line (ascii ''K'' @ [equals_sign] @ ?raw1) = Inr (Some (strip (ascii ''K''), ?v1))"
    by (rule iffD2)
  let ?raw2 = "[dquote] @ ascii '' eu '' @ [dquote]"
  let ?v2 = "ascii '' eu ''"
  have "\<exists>ws1 dq1 sq1 sq2 dq2 ws2.
        ?raw2 = ws1 @ (dq1 @ (sq1 @ ?v2 @ sq2) @ dq2) @ ws2 \<and>
        list_all is_space ws1 \<and> list_all is_space ws2 \<and>
        ends_free is_space (dq1 @ (sq1 @ ?v2 @ sq2) @ dq2) \<and>
        list_all (\<lambda>cp. cp = dquote) dq1 \<and> list_all (\<lambda>cp. cp = dquote) dq2 \<and>
        ends_free (\<lambda>cp. cp = dquote) (sq1 @ ?v2 @ sq2) \<and>
        list_all (\<lambda>cp. cp = squote) sq1 \<and> list_all (\<lambda>cp. cp = squote) sq2 \<and>
        ends_free (\<lambda>cp. cp = squote) ?v2"
    by (intro exI [of _ "[]"] exI [of _ "[dquote]"])
      (simp add: ends_free_def is_space_def dquote_def squote_def ascii_def)
  with dotenv_value_layers [OF k1 k2, of ?raw2 ?v2]
  have 2: "parse_line (ascii ''K'' @ [equals_sign] @ ?raw2) = Inr (Some (strip (ascii ''K''), ?v2))"
    by (rule iffD2)
  from 1 2 show ?thesis
    unfolding k3 by (rule conjI)
qed

text \<open>
  C8 as stated fails. In a file with the lines \<open>AWS_REGION="eu\<close> and
  \<open>AWS_BEDROCK_MODEL_ID="'m'"\<close> the first value has no matching pair of quotes and
  loses its quote all the same, and the second loses both layers of quotes.
\<close>

theorem dotenv_quotes_counterexample:
  "load_from_dotenv init_config
     (Lines [ascii ''AWS_REGION='' @ [dquote] @ ascii ''eu'',
             ascii ''AWS_BEDROCK_MODEL_ID='' @ [dquote, squote] @ ascii ''m'' @ [squote, dquote]])
     = Inr (init_config\<lparr>model_id := ascii ''m'', aws_region := ascii ''eu''\<rparr>)"
  by (simp add: load_from_dotenv_def load_dotenv_line_def parse_line_def strip_def
      strip_with_def is_space_def starts_with_hash_def split_eq_def dotenv_value_def
      strip_char_def eval_defs dotenv_assign_def ascii_def)

section \<open>What the readers and the publisher raise\<close>

lemma split_eq_two:
  "equals_sign \<in> set s \<Longrightarrow> \<exists>a b. split_eq s = [a, b]"
  by (simp add: split_eq_def)

lemma parse_line_no_error: "parse_line raw \<noteq> Inl e"
proof (cases "equals_sign \<in> set (strip raw)")
  case True
  then obtain a b where "split_eq (strip raw) = [a, b]"
    using split_eq_two by blast
  then show ?thesis
    by (simp add: parse_line_def Let_def)
next
  case False
  then show ?thesis
    by (simp add: parse_line_def Let_def)
qed

lemma parse_line_malformed: "equals_sign \<notin> set l \<Longrightarrow> parse_line l = Inr None"
proof -
  assume "equals_sign \<notin> set l"
  moreover have "set (strip l) \<subseteq> set l"
    unfolding strip_def strip_with_def
    using set_dropWhileD [of _ is_space "rev (dropWhile is_space l)"]
      set_dropWhileD [of _ is_space l]
    by auto
  ultimately have "equals_sign \<notin> set (strip l)" by blast
  then show ?thesis by (simp add: parse_line_def Let_def)
qed

lemma load_dotenv_line_total: "\<exists>c'. load_dotenv_line c raw = Inr c'"
proof (cases "parse_line raw")
  case (Inl e)
  then show ?thesis using parse_line_no_error by blast
next
  case (Inr r)
  then show ?thesis
    by (cases r) (auto simp: load_dotenv_line_def)
qed

lemma load_dotenv_lines_total: "\<exists>c'. load_dotenv_lines c ls = Inr c'"
proof (induction ls arbitrary: c)
  case Nil
  show ?case by simp
next
  case (Cons l ls)
  obtain c1 where "load_dotenv_line c l = Inr c1"
    using load_dotenv_line_total by blast
  with Cons.IH [of c1] show ?case by simp
qed

lemma load_from_dotenv_readable:
  "dotenv \<noteq> Unreadable \<Longrightarrow> \<exists>c'. load_from_dotenv c dotenv = Inr c'"
  by (cases dotenv) (simp_all add: load_from_dotenv_def load_dotenv_lines_total)

lemma mode_names: "ascii ''api_key'' \<noteq> ascii ''iam_role''"
  by (simp add: ascii_def)

lemma mode_api_key_iff:
  "authentication_mode c = ascii ''api_key'' \<longleftrightarrow>
     truthy (aws_bedrock_api_key c) \<and> \<not> use_iam_role c"
  using mode_names by (simp add: authentication_mode_def)

lemma mode_iam_role_iff:
  "authentication_mode c = ascii ''iam_role'' \<longleftrightarrow>
     \<not> (truthy (aws_bedrock_api_key c) \<and> \<not> use_iam_role c)"
  using mode_names by (auto simp: authentication_mode_def)

lemma validate_result:
  "validate c =
     (if authentication_mode c = ascii ''iam_role'' \<and> aws_region c = []
      then Inl MissingRegionError else Inr ())"
  by (simp add: validate_def mode_api_key_iff mode_iam_role_iff)

lemma putenv_ok_Nil: "putenv_ok []"
  by (simp add: putenv_ok_def)

lemma fst_and_then:
  "fst (and_then r f) = (case fst r of Some e \<Rightarrow> Some e | None \<Rightarrow> fst (f (snd r)))"
  by (cases r) (simp add: and_then_def split: option.splits)

lemma fst_environ_set:
  "fst (environ_set env name v) = (if putenv_ok v then None else Some PutenvError)"
  by (simp add: environ_set_def)

lemma setup_environment_error:
  "fst (setup_environment c env) =
     (if \<not> (putenv_ok (model_id c) \<and> putenv_ok (aws_region c)) then Some PutenvError
      else if truthy (aws_bedrock_api_key c) \<and> \<not> use_iam_role c
        then (case aws_bedrock_api_key c of
                None \<Rightarrow> None
              | Some k \<Rightarrow> if putenv_ok k then None else Some PutenvError)
        else (if print_ok (aws_region c) then None else Some PrintError))"
proof (cases "aws_bedrock_api_key c")
  case None
  then show ?thesis
    by (auto simp: setup_environment_def fst_and_then fst_environ_set mode_api_key_iff
        truthy_def Let_def putenv_ok_Nil)
next
  case (Some k)
  then show ?thesis
    by (auto simp: setup_environment_def fst_and_then fst_environ_set mode_api_key_iff
        truthy_def Let_def putenv_ok_Nil)
qed

lemma setup_environment_returns:
  "fst (setup_environment c env) = None \<longleftrightarrow> publishable c"
  by (cases "aws_bedrock_api_key c")
    (auto simp: setup_environment_error publishable_def truthy_def)

lemma setup_environment_error_kinds:
  "fst (setup_environment c env) = Some e \<Longrightarrow> e = PutenvError \<or> e = PrintError"
  by (auto simp: setup_environment_error split: if_splits option.splits)

section \<open>The environment publisher\<close>

text \<open>
  C9. Publishing is idempotent: for every configuration and every process environment,
  \<open>setup_environment\<close> run a second time leaves the environment that the first run
  left, and ends as the first run ended (also when the first run raised part of the way).
\<close>

theorem setup_environment_idempotent:
  "setup_environment c (snd (setup_environment c env)) = setup_environment c env"
proof -
  define M where "M = ascii ''AWS_BEDROCK_MODEL_ID''"
  define R where "R = ascii ''AWS_REGION''"
  define D where "D = ascii ''AWS_DEFAULT_REGION''"
  define K where "K = ascii ''AWS_BEDROCK_API_KEY''"
  define api where "api = (authentication_mode c = ascii ''api_key'')"
  have neq: "M \<noteq> R" "M \<noteq> D" "M \<noteq> K" "R \<noteq> D" "R \<noteq> K" "D \<noteq> K"
    by (simp_all add: M_def R_def D_def K_def ascii_def)
  have eq: "setup_environment c e =
     and_then
       (if model_id c \<noteq> [] then environ_set e M (model_id c) else (None, e))
       (\<lambda>e1. and_then
          (if aws_region c \<noteq> []
           then and_then (environ_set e1 R (aws_region c))
                  (\<lambda>e. if e D = None then environ_set e D (aws_region c) else (None, e))
           else (None, e1))
          (\<lambda>e2. if api
                then (case aws_bedrock_api_key c of
                        None \<Rightarrow> (None, e2)
                      | Some k \<Rightarrow> if k \<noteq> [] then environ_set e2 K k else (None, e2))
                else (let e3 = (if e2 K \<noteq> None then e2(K := None) else e2)
                      in if print_ok (aws_region c) then (None, e3)
                         else (Some PrintError, e3))))" for e
    unfolding setup_environment_def M_def R_def D_def K_def api_def by (rule refl)
  have pt: "snd (setup_environment c e) x =
     (if x = M then (if model_id c \<noteq> [] \<and> putenv_ok (model_id c) then Some (model_id c) else e x)
      else if x = R
        then (if putenv_ok (model_id c) \<and> aws_region c \<noteq> [] \<and> putenv_ok (aws_region c)
              then Some (aws_region c) else e x)
      else if x = D
        then (if putenv_ok (model_id c) \<and> aws_region c \<noteq> [] \<and> putenv_ok (aws_region c) \<and>
                 e x = None
              then Some (aws_region c) else e x)
      else if x = K
        then (if putenv_ok (model_id c) \<and> putenv_ok (aws_region c)
              then (if api
                    then (case aws_bedrock_api_key c of
                            None \<Rightarrow> e x
                          | Some k \<Rightarrow> if k \<noteq> [] \<and> putenv_ok k then Some k else e x)
                    else None)
              else e x)
      else e x)" for e x
    using neq
    by (cases "aws_bedrock_api_key c")
      (auto simp: eq and_then_def environ_set_def Let_def putenv_ok_Nil)
  have "fst (setup_environment c (snd (setup_environment c env))) = fst (setup_environment c env)"
    by (simp only: setup_environment_error)
  moreover
  have "snd (setup_environment c (snd (setup_environment c env))) = snd (setup_environment c env)"
    by (rule ext) (simp add: pt split: option.splits)
  ultimately show ?thesis
    by (rule prod_eqI)
qed

section \<open>The frame of ensure_configured\<close>

text \<open>
  C10. When the configuration is configured on entry (credential present or
  \<open>use_iam_role\<close> true), \<open>ensure_configured\<close> only runs the validator: its outcome
  is the validator's on the configuration as it was, and it returns that configuration and
  the process environment unchanged, whatever the dotenv file and the environment hold.
\<close>

theorem ensure_configured_frame:
  "is_configured c \<Longrightarrow>
   ensure_configured c dotenv env =
     (case validate c of Inl e \<Rightarrow> Inl e | Inr u \<Rightarrow> Inr (c, env))"
  by (simp add: ensure_configured_def)

theorem ensure_configured_frame_witness:
  "is_configured (set_use_iam_role init_config True) \<and>
   ensure_configured (set_use_iam_role init_config True)
       (Lines [ascii ''USE_IAM_ROLE=false'', ascii ''AWS_REGION=eu-west-1''])
       [ascii ''AWS_BEDROCK_API_KEY'' \<mapsto> ascii ''env-key'',
        ascii ''AWS_LAMBDA_FUNCTION_NAME'' \<mapsto> ascii ''f'']
     = Inr (set_use_iam_role init_config True,
            [ascii ''AWS_BEDROCK_API_KEY'' \<mapsto> ascii ''env-key'',
             ascii ''AWS_LAMBDA_FUNCTION_NAME'' \<mapsto> ascii ''f''])"
proof -
  let ?c = "set_use_iam_role init_config True"
  have c: "is_configured ?c"
    by (simp add: is_configured_def set_use_iam_role_def)
  have v: "validate ?c = Inr ()"
    by (simp add: validate_result mode_iam_role_iff set_use_iam_role_def init_config_def
        ascii_def)
  show ?thesis
    using c ensure_configured_frame [OF c] by (simp only: v sum.case simp_thms)
qed

section \<open>The authentication mode\<close>

text \<open>
  C1, as the code has it. The mode is \<open>api_key\<close> exactly when the credential is
  present and not the empty string and \<open>use_iam_role\<close> is false, and \<open>iam_role\<close>
  otherwise; with \<open>use_iam_role\<close> true the mode is \<open>iam_role\<close> whatever the
  credential is. The test of the source is the truth value of the credential, so a
  credential that is present but empty does not give \<open>api_key\<close>.
\<close>

theorem authentication_mode_spec:
  "(authentication_mode c = ascii ''api_key'' \<longleftrightarrow>
      (\<exists>k. aws_bedrock_api_key c = Some k \<and> k \<noteq> []) \<and> \<not> use_iam_role c) \<and>
   (authentication_mode c \<noteq> ascii ''api_key'' \<longrightarrow> authentication_mode c = ascii ''iam_role'') \<and>
   (use_iam_role c \<longrightarrow> authentication_mode c = ascii ''iam_role'')"
proof -
  have "truthy (aws_bedrock_api_key c) \<longleftrightarrow> (\<exists>k. aws_bedrock_api_key c = Some k \<and> k \<noteq> [])"
    by (cases "aws_bedrock_api_key c") (simp_all add: truthy_def)
  then have 1: "authentication_mode c = ascii ''api_key'' \<longleftrightarrow>
      (\<exists>k. aws_bedrock_api_key c = Some k \<and> k \<noteq> []) \<and> \<not> use_iam_role c"
    by (simp only: mode_api_key_iff)
  have 2: "authentication_mode c \<noteq> ascii ''api_key'' \<longrightarrow>
      authentication_mode c = ascii ''iam_role''"
    by (simp add: authentication_mode_def)
  have 3: "use_iam_role c \<longrightarrow> authentication_mode c = ascii ''iam_role''"
    by (simp add: authentication_mode_def)
  from 1 2 3 show ?thesis by (intro conjI)
qed

theorem authentication_mode_spec_witness:
  "authentication_mode
     (init_config\<lparr>aws_bedrock_api_key := Some (ascii ''k''), use_iam_role := True\<rparr>)
     = ascii ''iam_role'' \<and>
   authentication_mode (init_config\<lparr>aws_bedrock_api_key := Some (ascii ''k'')\<rparr>)
     = ascii ''api_key''"
proof -
  let ?r = "init_config\<lparr>aws_bedrock_api_key := Some (ascii ''k''), use_iam_role := True\<rparr>"
  let ?a = "init_config\<lparr>aws_bedrock_api_key := Some (ascii ''k'')\<rparr>"
  have "use_iam_role ?r"
    by simp
  with authentication_mode_spec [of ?r, THEN conjunct2, THEN conjunct2]
  have 1: "authentication_mode ?r = ascii ''iam_role''"
    by (rule mp)
  have "(\<exists>k. aws_bedrock_api_key ?a = Some k \<and> k \<noteq> []) \<and> \<not> use_iam_role ?a"
    by (simp add: init_config_def ascii_def)
  with authentication_mode_spec [of ?a, THEN conjunct1]
  have 2: "authentication_mode ?a = ascii ''api_key''"
    by (rule iffD2)
  from 1 2 show ?thesis ..
qed

text \<open>
  C1 as stated fails: after reading a dotenv file whose only line is
  \<open>AWS_BEDROCK_API_KEY=\<close> the credential is present (the empty string) and
  \<open>use_iam_role\<close> is false, and the mode is \<open>iam_role\<close>.
\<close>

theorem authentication_mode_empty_credential:
  "load_from_dotenv init_config (Lines [ascii ''AWS_BEDROCK_API_KEY=''])
     = Inr (set_api_key init_config []) \<and>
   aws_bedrock_api_key (set_api_key init_config []) \<noteq> None \<and>
   \<not> use_iam_role (set_api_key init_config []) \<and>
   authentication_mode (set_api_key init_config []) = ascii ''iam_role''"
  by (simp add: set_api_key_def init_config_def authentication_mode_def truthy_def
      load_from_dotenv_def load_dotenv_line_def parse_line_def strip_def
      strip_with_def is_space_def starts_with_hash_def split_eq_def dotenv_value_def
      strip_char_def eval_defs dotenv_assign_def ascii_def)

section \<open>The steps of the entry points\<close>

lemma setup_config_outcome:
  assumes "(if use_dotenv then load_from_dotenv c dotenv else Inr c) = Inr c1"
    and "x = auto_detect
               (apply_explicit (if use_env then load_from_env c1 env else c1)
                  api_key m region use_iam) env"
  shows "setup_config c dotenv env api_key m region use_iam use_dotenv use_env =
     (case fst (setup_environment x env) of
        Some e \<Rightarrow> Inl e
      | None \<Rightarrow> Inr (x, snd (setup_environment x env)))"
  using assms(1) unfolding assms(2) by (simp only: setup_config_def Let_def sum.case)

lemma setup_config_steps:
  assumes "setup_config c dotenv env api_key m region use_iam use_dotenv use_env = Inr (c', env')"
  obtains c1 where "(if use_dotenv then load_from_dotenv c dotenv else Inr c) = Inr c1"
    and "c' = auto_detect
                (apply_explicit (if use_env then load_from_env c1 env else c1)
                   api_key m region use_iam) env"
    and "publishable c'"
proof (cases "if use_dotenv then load_from_dotenv c dotenv else Inr c")
  case (Inl e)
  with assms show ?thesis by (simp add: setup_config_def)
next
  case (Inr c1)
  define x where "x = auto_detect
                (apply_explicit (if use_env then load_from_env c1 env else c1)
                   api_key m region use_iam) env"
  from Inr x_def have "setup_config c dotenv env api_key m region use_iam use_dotenv use_env =
     (case fst (setup_environment x env) of
        Some e \<Rightarrow> Inl e
      | None \<Rightarrow> Inr (x, snd (setup_environment x env)))"
    by (rule setup_config_outcome)
  with assms have r: "(case fst (setup_environment x env) of
        Some e \<Rightarrow> Inl e
      | None \<Rightarrow> Inr (x, snd (setup_environment x env))) = (Inr (c', env') :: error + config \<times> environ)"
    by simp
  then have n: "fst (setup_environment x env) = None"
    by (cases "fst (setup_environment x env)") simp_all
  with r have "c' = x"
    by simp
  moreover from n have "publishable x"
    by (simp only: setup_environment_returns)
  ultimately have "c' = auto_detect
                (apply_explicit (if use_env then load_from_env c1 env else c1)
                   api_key m region use_iam) env" and "publishable c'"
    by (simp_all only: x_def)
  with Inr show ?thesis by (rule that)
qed

lemma ensure_configured_outcome:
  assumes "\<not> is_configured c" and "load_from_dotenv c dotenv = Inr c1"
    and "x = (if \<not> is_configured (load_from_env c1 env)
              then (if in_lambda env then set_use_iam_role (load_from_env c1 env) True
                    else load_from_env c1 env)
              else load_from_env c1 env)"
  shows "ensure_configured c dotenv env =
     (case fst (setup_environment x env) of
        Some e \<Rightarrow> Inl e
      | None \<Rightarrow>
          (case validate x of
             Inl e \<Rightarrow> Inl e
           | Inr u \<Rightarrow> Inr (x, snd (setup_environment x env))))"
  using assms(1,2) unfolding assms(3)
  by (simp add: ensure_configured_def Let_def)

section \<open>The validator and the other errors\<close>

text \<open>
  C4, as the code has it. \<open>validate\<close> never raises the missing-credential error: the
  mode is \<open>api_key\<close> only with a non-empty credential, so the mode is never
  \<open>api_key\<close> with the credential absent. It raises the missing-region error exactly
  when the mode is \<open>iam_role\<close> and the region is empty, and returns otherwise. An
  absent dotenv file, a line without \<open>=\<close> and a key that is not recognised never
  raise, and no file that can be read does. But the validator is not the only operation
  that raises. The file reader raises on a file that exists and cannot be read. The
  publisher raises exactly on the configurations that are not \<open>publishable\<close>: a value
  to write with a NUL or an unencodable code point, or a region to print with one. These
  exceptions go through \<open>setup_config\<close> and \<open>ensure_configured\<close>, which raise
  nothing else but, for \<open>ensure_configured\<close>, the missing-region error; what
  \<open>setup_config\<close> returns is publishable, and what \<open>ensure_configured\<close> returns is
  valid.
\<close>

theorem validate_and_other_errors:
  "validate c \<noteq> Inl MissingCredentialError \<and>
   \<not> (authentication_mode c = ascii ''api_key'' \<and> aws_bedrock_api_key c = None) \<and>
   (validate c = Inl MissingRegionError \<longleftrightarrow>
      authentication_mode c = ascii ''iam_role'' \<and> aws_region c = []) \<and>
   (validate c = Inr () \<longleftrightarrow>
      \<not> (authentication_mode c = ascii ''iam_role'' \<and> aws_region c = [])) \<and>
   load_from_dotenv c NoFile = Inr c \<and>
   (\<exists>c'. load_from_dotenv c (Lines ls) = Inr c') \<and>
   (equals_sign \<notin> set l \<longrightarrow> load_dotenv_line c l = Inr c) \<and>
   (key \<notin> set [ascii ''AWS_BEDROCK_API_KEY'', ascii ''AWS_BEDROCK_MODEL_ID'',
                 ascii ''AWS_REGION'', ascii ''AWS_DEFAULT_REGION'', ascii ''USE_IAM_ROLE'']
      \<longrightarrow> dotenv_assign c key v = c) \<and>
   load_from_dotenv c Unreadable = Inl FileError \<and>
   (fst (setup_environment c env) = None \<longleftrightarrow> publishable c) \<and>
   (\<forall>e. fst (setup_environment c env) = Some e \<longrightarrow> e = PutenvError \<or> e = PrintError) \<and>
   (setup_config c dotenv env api_key m region use_iam use_dotenv use_env = Inl FileError
      \<longleftrightarrow> use_dotenv \<and> dotenv = Unreadable) \<and>
   (\<forall>e. setup_config c dotenv env api_key m region use_iam use_dotenv use_env = Inl e
      \<longrightarrow> e = FileError \<or> e = PutenvError \<or> e = PrintError) \<and>
   (\<forall>c' env'. setup_config c dotenv env api_key m region use_iam use_dotenv use_env
        = Inr (c', env') \<longrightarrow> publishable c') \<and>
   (ensure_configured c dotenv env = Inl FileError
      \<longleftrightarrow> \<not> is_configured c \<and> dotenv = Unreadable) \<and>
   (\<forall>e. ensure_configured c dotenv env = Inl e
      \<longrightarrow> e = FileError \<or> e = PutenvError \<or> e = PrintError \<or> e = MissingRegionError) \<and>
   (\<forall>c' env'. ensure_configured c dotenv env = Inr (c', env') \<longrightarrow> validate c' = Inr ())"
proof -
  have 1: "validate c \<noteq> Inl MissingCredentialError"
    by (simp add: validate_result)
  have 2: "\<not> (authentication_mode c = ascii ''api_key'' \<and> aws_bedrock_api_key c = None)"
    by (simp add: mode_api_key_iff truthy_def split: option.splits)
  have 3: "validate c = Inl MissingRegionError \<longleftrightarrow>
      authentication_mode c = ascii ''iam_role'' \<and> aws_region c = []"
    by (simp add: validate_result)
  have 4: "validate c = Inr () \<longleftrightarrow>
      \<not> (authentication_mode c = ascii ''iam_role'' \<and> aws_region c = [])"
    by (simp add: validate_result)
  have 5: "load_from_dotenv c NoFile = Inr c"
    by (simp add: load_from_dotenv_def)
  have 6: "\<exists>c'. load_from_dotenv c (Lines ls) = Inr c'"
    by (simp add: load_from_dotenv_readable)
  have 7: "equals_sign \<notin> set l \<longrightarrow> load_dotenv_line c l = Inr c"
    by (simp add: load_dotenv_line_def parse_line_malformed)
  have 8: "key \<notin> set [ascii ''AWS_BEDROCK_API_KEY'', ascii ''AWS_BEDROCK_MODEL_ID'',
                 ascii ''AWS_REGION'', ascii ''AWS_DEFAULT_REGION'', ascii ''USE_IAM_ROLE'']
      \<longrightarrow> dotenv_assign c key v = c"
    by (simp add: dotenv_assign_def)
  have 9: "load_from_dotenv c Unreadable = Inl FileError"
    by (simp add: load_from_dotenv_def)
  have 10: "fst (setup_environment c env) = None \<longleftrightarrow> publishable c"
    by (rule setup_environment_returns)
  have 11: "\<forall>e. fst (setup_environment c env) = Some e \<longrightarrow> e = PutenvError \<or> e = PrintError"
    using setup_environment_error_kinds by blast
  let ?run = "setup_config c dotenv env api_key m region use_iam use_dotenv use_env"
  have sc: "(?run = Inl FileError \<longleftrightarrow> use_dotenv \<and> dotenv = Unreadable) \<and>
      (\<forall>e. ?run = Inl e \<longrightarrow> e = FileError \<or> e = PutenvError \<or> e = PrintError)"
  proof (cases "use_dotenv \<and> dotenv = Unreadable")
    case True
    then have "?run = Inl FileError"
      by (simp add: setup_config_def load_from_dotenv_def)
    with True show ?thesis by simp
  next
    case False
    then obtain c1 where c1: "(if use_dotenv then load_from_dotenv c dotenv else Inr c) = Inr c1"
      using load_from_dotenv_readable [of dotenv c] by (cases use_dotenv) auto
    define x where "x = auto_detect
               (apply_explicit (if use_env then load_from_env c1 env else c1)
                  api_key m region use_iam) env"
    from c1 x_def have r: "?run = (case fst (setup_environment x env) of
        Some e \<Rightarrow> Inl e
      | None \<Rightarrow> Inr (x, snd (setup_environment x env)))"
      by (rule setup_config_outcome)
    have "\<forall>e. ?run = Inl e \<longrightarrow> e = PutenvError \<or> e = PrintError"
      unfolding r using setup_environment_error_kinds [of x env]
      by (cases "fst (setup_environment x env)") simp_all
    with False show ?thesis by auto
  qed
  have 14: "\<forall>c' env'. ?run = Inr (c', env') \<longrightarrow> publishable c'"
  proof (intro allI impI)
    fix c' env'
    assume "?run = Inr (c', env')"
    then show "publishable c'"
      by (rule setup_config_steps)
  qed
  let ?ens = "ensure_configured c dotenv env"
  have ec: "(?ens = Inl FileError \<longleftrightarrow> \<not> is_configured c \<and> dotenv = Unreadable) \<and>
      (\<forall>e. ?ens = Inl e \<longrightarrow>
         e = FileError \<or> e = PutenvError \<or> e = PrintError \<or> e = MissingRegionError) \<and>
      (\<forall>c' env'. ?ens = Inr (c', env') \<longrightarrow> validate c' = Inr ())"
  proof (cases "is_configured c")
    case True
    then have "?ens = (case validate c of Inl e \<Rightarrow> Inl e | Inr u \<Rightarrow> Inr (c, env))"
      by (simp add: ensure_configured_def)
    with True show ?thesis
      by (simp add: validate_result)
  next
    case nc: False
    show ?thesis
    proof (cases "dotenv = Unreadable")
      case True
      with nc have "?ens = Inl FileError"
        by (simp add: ensure_configured_def load_from_dotenv_def)
      with nc True show ?thesis by simp
    next
      case False
      then obtain c1 where c1: "load_from_dotenv c dotenv = Inr c1"
        using load_from_dotenv_readable by blast
      define x where "x = (if \<not> is_configured (load_from_env c1 env)
              then (if in_lambda env then set_use_iam_role (load_from_env c1 env) True
                    else load_from_env c1 env)
              else load_from_env c1 env)"
      from nc c1 x_def have r: "?ens =
        (case fst (setup_environment x env) of
           Some e \<Rightarrow> Inl e
         | None \<Rightarrow>
             (case validate x of
                Inl e \<Rightarrow> Inl e
              | Inr u \<Rightarrow> Inr (x, snd (setup_environment x env))))"
        by (rule ensure_configured_outcome)
      show ?thesis
      proof (cases "fst (setup_environment x env)")
        case None
        with r False show ?thesis
          by (simp add: validate_result)
      next
        case (Some e)
        with setup_environment_error_kinds [of x env e] r False show ?thesis
          by auto
      qed
    qed
  qed
  show ?thesis
    by (intro conjI)
      (rule 1 2 3 4 5 6 7 8 9 10 11 14 sc [THEN conjunct1] sc [THEN conjunct2]
        ec [THEN conjunct1] ec [THEN conjunct2, THEN conjunct1]
        ec [THEN conjunct2, THEN conjunct2])+
qed

lemmas reader_defs =
  load_from_dotenv_def load_dotenv_line_def parse_line_def strip_def strip_with_def
  is_space_def starts_with_hash_def split_eq_def dotenv_value_def strip_char_def eval_defs
  dotenv_assign_def ascii_def

lemmas merge_defs =
  setup_config_def load_from_env_def py_or_def truthy_def is_true_word_def lower_def
  lower_cp_def apply_explicit_def set_api_key_def set_model_id_def set_aws_region_def
  set_use_iam_role_def auto_detect_def in_lambda_def init_config_def Let_def
  setup_environment_error putenv_ok_def print_ok_def

theorem validate_and_other_errors_witness:
  "validate (set_aws_region init_config []) = Inl MissingRegionError \<and>
   load_dotenv_line init_config (ascii ''not an assignment'') = Inr init_config \<and>
   dotenv_assign init_config (ascii ''OTHER_KEY'') (ascii ''1'') = init_config \<and>
   fst (setup_environment init_config Map.empty) = None"
proof -
  let ?c = "set_aws_region init_config []"
  note t = validate_and_other_errors [of ?c]
  note u = validate_and_other_errors
    [of init_config _ "ascii ''not an assignment''" "ascii ''OTHER_KEY''" "ascii ''1''"
      Map.empty]
  have "authentication_mode ?c = ascii ''iam_role'' \<and> aws_region ?c = []"
    by (simp add: mode_iam_role_iff set_aws_region_def init_config_def truthy_def)
  with t [THEN conjunct2, THEN conjunct2, THEN conjunct1]
  have 1: "validate ?c = Inl MissingRegionError"
    by (rule iffD2)
  have "equals_sign \<notin> set (ascii ''not an assignment'')"
    by (simp add: ascii_def equals_sign_def)
  with u [THEN conjunct2, THEN conjunct2, THEN conjunct2, THEN conjunct2, THEN conjunct2,
      THEN conjunct2, THEN conjunct1]
  have 2: "load_dotenv_line init_config (ascii ''not an assignment'') = Inr init_config"
    by (rule mp)
  have "ascii ''OTHER_KEY'' \<notin> set [ascii ''AWS_BEDROCK_API_KEY'',
      ascii ''AWS_BEDROCK_MODEL_ID'', ascii ''AWS_REGION'', ascii ''AWS_DEFAULT_REGION'',
      ascii ''USE_IAM_ROLE'']"
    by (simp add: ascii_def)
  with u [THEN conjunct2, THEN conjunct2, THEN conjunct2, THEN conjunct2, THEN conjunct2,
      THEN conjunct2, THEN conjunct2, THEN conjunct1]
  have 3: "dotenv_assign init_config (ascii ''OTHER_KEY'') (ascii ''1'') = init_config"
    by (rule mp)
  have "publishable init_config"
    by (simp add: publishable_def init_config_def truthy_def putenv_ok_def print_ok_def
        ascii_def)
  with u [THEN conjunct2, THEN conjunct2, THEN conjunct2, THEN conjunct2, THEN conjunct2,
      THEN conjunct2, THEN conjunct2, THEN conjunct2, THEN conjunct2, THEN conjunct1]
  have 4: "fst (setup_environment init_config Map.empty) = None"
    by (rule iffD2)
  from 1 2 3 4 show ?thesis by (intro conjI)
qed

text \<open>
  C4 as stated fails, since operations other than the validator raise. With a dotenv
  file whose only line is \<open>AWS_REGION=us\<close>, a NUL and \<open>east\<close>, \<open>setup_config()\<close>
  in a fresh process raises in the publisher, at \<open>os.environ['AWS_REGION'] = ...\<close>;
  and the file reader raises on a file that exists and cannot be read.
\<close>

theorem other_operations_raise:
  "setup_config init_config (Lines [ascii ''AWS_REGION=us'' @ [0] @ ascii ''east''])
     Map.empty None None None None True True = Inl PutenvError \<and>
   load_from_dotenv init_config Unreadable = Inl FileError"
  by (simp add: reader_defs merge_defs)

section \<open>An explicit false and the automatic detection\<close>

lemma auto_detect_fields:
  "aws_bedrock_api_key (auto_detect c env) = aws_bedrock_api_key c"
  "model_id (auto_detect c env) = model_id c"
  "aws_region (auto_detect c env) = aws_region c"
  "use_iam_role (auto_detect c env) =
     (use_iam_role c \<or> (\<not> truthy (aws_bedrock_api_key c) \<and> in_lambda env))"
  by (auto simp: auto_detect_def set_use_iam_role_def)

lemma apply_explicit_fields:
  "aws_bedrock_api_key (apply_explicit c api_key m region use_iam) =
     (if truthy api_key then api_key else aws_bedrock_api_key c)"
  "model_id (apply_explicit c api_key m region use_iam) =
     (case m of None \<Rightarrow> model_id c | Some v \<Rightarrow> if v \<noteq> [] then v else model_id c)"
  "aws_region (apply_explicit c api_key m region use_iam) =
     (case region of None \<Rightarrow> aws_region c | Some r \<Rightarrow> if r \<noteq> [] then r else aws_region c)"
  "use_iam_role (apply_explicit c api_key m region use_iam) =
     (case use_iam of None \<Rightarrow> use_iam_role c | Some b \<Rightarrow> b)"
  by (simp_all add: apply_explicit_def Let_def truthy_def set_api_key_def set_model_id_def
      set_aws_region_def set_use_iam_role_def split: option.splits)

lemma load_from_env_fields:
  "aws_bedrock_api_key (load_from_env c env) = env (ascii ''AWS_BEDROCK_API_KEY'')"
  "model_id (load_from_env c env) =
     (case env (ascii ''AWS_BEDROCK_MODEL_ID'') of
        None \<Rightarrow> model_id c
      | Some v \<Rightarrow> if v \<noteq> [] then v else model_id c)"
  "aws_region (load_from_env c env) =
     (case py_or (env (ascii ''AWS_REGION'')) (env (ascii ''AWS_DEFAULT_REGION'')) of
        None \<Rightarrow> aws_region c
      | Some r \<Rightarrow> if r \<noteq> [] then r else aws_region c)"
  "use_iam_role (load_from_env c env) =
     (is_true_word (case env (ascii ''USE_IAM_ROLE'') of None \<Rightarrow> [] | Some w \<Rightarrow> w) \<or>
      use_iam_role c)"
  by (simp_all add: load_from_env_def Let_def split: option.splits)

text \<open>
  C3, as the code has it. When \<open>setup_config\<close> is called with \<open>use_iam_role=False\<close>,
  the automatic detection does override the explicit false: the returned configuration has
  \<open>use_iam_role\<close> true exactly when no non-empty credential was resolved and one of the
  two markers of the managed runtime is set and not empty. With no credential among the
  arguments and the environment reader on, the resolved credential is the environment's.
\<close>

theorem explicit_false_auto_detected:
  assumes "setup_config c dotenv env api_key m region (Some False) use_dotenv use_env
             = Inr (c', env')"
  shows "use_iam_role c' = (\<not> truthy (aws_bedrock_api_key c') \<and> in_lambda env) \<and>
         (api_key = None \<and> use_env \<longrightarrow>
            aws_bedrock_api_key c' = env (ascii ''AWS_BEDROCK_API_KEY''))"
proof -
  from assms obtain c1 where
    c': "c' = auto_detect
                (apply_explicit (if use_env then load_from_env c1 env else c1)
                   api_key m region (Some False)) env"
    by (rule setup_config_steps)
  have "use_iam_role c' = (\<not> truthy (aws_bedrock_api_key c') \<and> in_lambda env)"
    unfolding c' by (simp only: auto_detect_fields apply_explicit_fields option.case simp_thms)
  moreover have "api_key = None \<and> use_env \<longrightarrow>
      aws_bedrock_api_key c' = env (ascii ''AWS_BEDROCK_API_KEY'')"
    unfolding c'
    by (simp add: auto_detect_fields apply_explicit_fields load_from_env_fields truthy_def)
  ultimately show ?thesis ..
qed

theorem explicit_false_auto_detected_witness:
  "map_sum id (use_iam_role \<circ> fst)
     (setup_config init_config NoFile
        [ascii ''AWS_EXECUTION_ENV'' \<mapsto> ascii ''AWS_Lambda_python3.12'']
        None None None (Some False) True True)
     = Inr True"
proof -
  let ?env = "[ascii ''AWS_EXECUTION_ENV'' \<mapsto> ascii ''AWS_Lambda_python3.12'']"
  let ?c = "init_config\<lparr>use_iam_role := True\<rparr>"
  have run: "setup_config init_config NoFile ?env None None None (Some False) True True
      = Inr (?c, snd (setup_environment ?c ?env))"
    by (simp add: reader_defs merge_defs)
  have "\<not> truthy (aws_bedrock_api_key ?c) \<and> in_lambda ?env"
    by (simp add: truthy_def in_lambda_def py_or_def init_config_def ascii_def)
  with explicit_false_auto_detected [OF run, THEN conjunct1] have "use_iam_role ?c"
    by (rule iffD2)
  then show ?thesis by (simp only: run map_sum.simps comp_apply fst_conv)
qed

text \<open>
  C3 as stated fails: in a fresh process with no dotenv file and only
  \<open>AWS_LAMBDA_FUNCTION_NAME\<close> set, \<open>setup_config(use_iam_role=False)\<close> returns
  the configuration with \<open>use_iam_role\<close> true.
\<close>

theorem explicit_false_overridden:
  "map_sum id fst
     (setup_config init_config NoFile
        [ascii ''AWS_LAMBDA_FUNCTION_NAME'' \<mapsto> ascii ''test-function'']
        None None None (Some False) True True)
     = Inr (init_config\<lparr>use_iam_role := True\<rparr>)"
  by (simp add: reader_defs merge_defs)

section \<open>Explicit arguments\<close>

lemma apply_explicit_empty:
  "apply_explicit c (Some []) m region use_iam = apply_explicit c None m region use_iam"
  "apply_explicit c api_key (Some []) region use_iam = apply_explicit c api_key None region use_iam"
  "apply_explicit c api_key m (Some []) use_iam = apply_explicit c api_key m None use_iam"
  by (simp_all add: apply_explicit_def)

text \<open>
  C5, as the code has it. In the configuration that \<open>setup_config\<close> returns, an
  explicit credential, model identifier or region that is not the empty string is the
  value of its field, whatever the environment and the file hold; an empty string is
  treated as an absent argument (the test is \<open>if api_key:\<close>). An explicit flag of
  true gives \<open>use_iam_role\<close> true; an explicit false is written, and the automatic
  detection that follows makes it true when no non-empty credential is resolved in a
  managed runtime.
\<close>

theorem explicit_arguments_override:
  assumes "setup_config c dotenv env api_key m region use_iam use_dotenv use_env = Inr (c', env')"
  shows "(\<forall>k. api_key = Some k \<and> k \<noteq> [] \<longrightarrow> aws_bedrock_api_key c' = Some k) \<and>
         (\<forall>v. m = Some v \<and> v \<noteq> [] \<longrightarrow> model_id c' = v) \<and>
         (\<forall>r. region = Some r \<and> r \<noteq> [] \<longrightarrow> aws_region c' = r) \<and>
         (use_iam = Some True \<longrightarrow> use_iam_role c') \<and>
         (use_iam = Some False \<longrightarrow>
            use_iam_role c' = (\<not> truthy (aws_bedrock_api_key c') \<and> in_lambda env)) \<and>
         setup_config c dotenv env (Some []) m region use_iam use_dotenv use_env
           = setup_config c dotenv env None m region use_iam use_dotenv use_env \<and>
         setup_config c dotenv env api_key (Some []) region use_iam use_dotenv use_env
           = setup_config c dotenv env api_key None region use_iam use_dotenv use_env \<and>
         setup_config c dotenv env api_key m (Some []) use_iam use_dotenv use_env
           = setup_config c dotenv env api_key m None use_iam use_dotenv use_env"
proof -
  from assms obtain c1 where
    c': "c' = auto_detect
                (apply_explicit (if use_env then load_from_env c1 env else c1)
                   api_key m region use_iam) env"
    by (rule setup_config_steps)
  have 1: "\<forall>k. api_key = Some k \<and> k \<noteq> [] \<longrightarrow> aws_bedrock_api_key c' = Some k"
    unfolding c' by (simp add: auto_detect_fields apply_explicit_fields truthy_def)
  have 2: "\<forall>v. m = Some v \<and> v \<noteq> [] \<longrightarrow> model_id c' = v"
    unfolding c' by (simp add: auto_detect_fields apply_explicit_fields)
  have 3: "\<forall>r. region = Some r \<and> r \<noteq> [] \<longrightarrow> aws_region c' = r"
    unfolding c' by (simp add: auto_detect_fields apply_explicit_fields)
  have 4: "use_iam = Some True \<longrightarrow> use_iam_role c'"
    unfolding c' by (simp add: auto_detect_fields apply_explicit_fields)
  have 5: "use_iam = Some False \<longrightarrow>
      use_iam_role c' = (\<not> truthy (aws_bedrock_api_key c') \<and> in_lambda env)"
    unfolding c' by (simp add: auto_detect_fields apply_explicit_fields)
  have 6: "setup_config c dotenv env (Some []) m region use_iam use_dotenv use_env
           = setup_config c dotenv env None m region use_iam use_dotenv use_env"
    by (simp only: setup_config_def apply_explicit_empty)
  have 7: "setup_config c dotenv env api_key (Some []) region use_iam use_dotenv use_env
           = setup_config c dotenv env api_key None region use_iam use_dotenv use_env"
    by (simp only: setup_config_def apply_explicit_empty)
  have 8: "setup_config c dotenv env api_key m (Some []) use_iam use_dotenv use_env
           = setup_config c dotenv env api_key m None use_iam use_dotenv use_env"
    by (simp only: setup_config_def apply_explicit_empty)
  show ?thesis
    by (intro conjI) (rule 1 2 3 4 5 6 7 8)+
qed

theorem explicit_arguments_override_witness:
  "map_sum id fst
     (setup_config init_config (Lines [ascii ''AWS_REGION=eu-west-1''])
        [ascii ''AWS_BEDROCK_MODEL_ID'' \<mapsto> ascii ''env-model'']
        (Some (ascii ''arg-key'')) (Some (ascii ''arg-model'')) (Some (ascii ''us-west-2''))
        (Some True) True True)
     = Inr \<lparr>aws_bedrock_api_key = Some (ascii ''arg-key''), model_id = ascii ''arg-model'',
            aws_region = ascii ''us-west-2'', use_iam_role = True\<rparr>"
proof -
  let ?env = "[ascii ''AWS_BEDROCK_MODEL_ID'' \<mapsto> ascii ''env-model'']"
  let ?run = "setup_config init_config (Lines [ascii ''AWS_REGION=eu-west-1'']) ?env
        (Some (ascii ''arg-key'')) (Some (ascii ''arg-model'')) (Some (ascii ''us-west-2''))
        (Some True) True True"
  have "\<exists>c' env'. ?run = Inr (c', env')"
    by (simp add: reader_defs merge_defs)
  then obtain c' env' where r: "?run = Inr (c', env')"
    by blast
  note t = explicit_arguments_override [OF r]
  have ne: "ascii ''arg-key'' \<noteq> []" "ascii ''arg-model'' \<noteq> []" "ascii ''us-west-2'' \<noteq> []"
    by (simp_all add: ascii_def)
  from t [THEN conjunct1] ne have "aws_bedrock_api_key c' = Some (ascii ''arg-key'')"
    by simp
  moreover from t [THEN conjunct2, THEN conjunct1] ne have "model_id c' = ascii ''arg-model''"
    by simp
  moreover from t [THEN conjunct2, THEN conjunct2, THEN conjunct1] ne
  have "aws_region c' = ascii ''us-west-2''"
    by simp
  moreover from t [THEN conjunct2, THEN conjunct2, THEN conjunct2, THEN conjunct1]
  have "use_iam_role c'"
    by simp
  ultimately have "c' = \<lparr>aws_bedrock_api_key = Some (ascii ''arg-key''),
      model_id = ascii ''arg-model'', aws_region = ascii ''us-west-2'', use_iam_role = True\<rparr>"
    by (cases c') simp
  with r show ?thesis by simp
qed

text \<open>
  C5 as stated fails for the empty string: \<open>setup_config(model_id='')\<close> in a fresh
  process leaves the default model identifier.
\<close>

theorem explicit_empty_string_ignored:
  "map_sum id (model_id \<circ> fst)
     (setup_config init_config NoFile Map.empty None (Some []) None None True True)
     = Inr (ascii ''us.anthropic.claude-sonnet-4-20250514-v1:0'')"
  by (simp add: reader_defs merge_defs)

section \<open>The role flag in the dotenv file\<close>

lemma load_dotenv_lines_append:
  "load_dotenv_lines c (xs @ ys) =
     (case load_dotenv_lines c xs of Inl e \<Rightarrow> Inl e | Inr c' \<Rightarrow> load_dotenv_lines c' ys)"
  by (induction xs arbitrary: c) (simp_all split: sum.splits)

lemma dotenv_assign_flag_other:
  "key \<noteq> ascii ''USE_IAM_ROLE'' \<Longrightarrow> use_iam_role (dotenv_assign c key v) = use_iam_role c"
  by (simp add: dotenv_assign_def)

lemma dotenv_assign_flag:
  "dotenv_assign c (ascii ''USE_IAM_ROLE'') v = c\<lparr>use_iam_role := is_true_word v\<rparr>"
  by (simp add: dotenv_assign_def ascii_def)

lemma load_dotenv_line_flag_other:
  assumes "\<forall>v. parse_line l \<noteq> Inr (Some (ascii ''USE_IAM_ROLE'', v))"
    and "load_dotenv_line c l = Inr c'"
  shows "use_iam_role c' = use_iam_role c"
proof (cases "parse_line l")
  case (Inl e)
  with assms(2) show ?thesis by (simp add: load_dotenv_line_def)
next
  case (Inr r)
  show ?thesis
  proof (cases r)
    case None
    with Inr assms(2) show ?thesis by (simp add: load_dotenv_line_def)
  next
    case (Some kv)
    obtain key v where kv: "kv = (key, v)" by (cases kv)
    with Inr Some assms(1) have "key \<noteq> ascii ''USE_IAM_ROLE''" by auto
    then have "use_iam_role (dotenv_assign c key v) = use_iam_role c"
      by (rule dotenv_assign_flag_other)
    with Inr Some kv assms(2) show ?thesis by (simp add: load_dotenv_line_def)
  qed
qed

lemma load_dotenv_lines_flag_other:
  assumes "\<forall>l\<in>set ls. \<forall>v. parse_line l \<noteq> Inr (Some (ascii ''USE_IAM_ROLE'', v))"
    and "load_dotenv_lines c ls = Inr c'"
  shows "use_iam_role c' = use_iam_role c"
  using assms
proof (induction ls arbitrary: c)
  case Nil
  then show ?case by simp
next
  case (Cons l ls)
  obtain c1 where c1: "load_dotenv_line c l = Inr c1"
    using load_dotenv_line_total by blast
  from Cons.prems(1) have "\<forall>v. parse_line l \<noteq> Inr (Some (ascii ''USE_IAM_ROLE'', v))"
    by simp
  then have "use_iam_role c1 = use_iam_role c"
    using c1 by (rule load_dotenv_line_flag_other)
  moreover from Cons.prems c1 have "use_iam_role c' = use_iam_role c1"
    by (intro Cons.IH) simp_all
  ultimately show ?case by simp
qed

text \<open>
  C6, as the code has it. The file reader assigns the flag where the environment reader
  only raises it: after reading a file, \<open>use_iam_role\<close> is the parsed value of the last
  \<open>USE_IAM_ROLE\<close> line of the file (false when that value, lowercased, is none of
  \<open>true\<close>, \<open>1\<close>, \<open>yes\<close>), whatever it was before; a file without such a line
  leaves it unchanged; and the environment reader leaves it unchanged when the variable is
  none of the three words.
\<close>

theorem dotenv_flag_assigned:
  "(parse_line l = Inr (Some (ascii ''USE_IAM_ROLE'', v)) \<and>
    (\<forall>l'\<in>set rest. \<forall>v'. parse_line l' \<noteq> Inr (Some (ascii ''USE_IAM_ROLE'', v'))) \<longrightarrow>
      (\<exists>c'. load_from_dotenv c (Lines (pre @ l # rest)) = Inr c' \<and>
            use_iam_role c' = is_true_word v)) \<and>
   ((\<forall>l'\<in>set ls. \<forall>v'. parse_line l' \<noteq> Inr (Some (ascii ''USE_IAM_ROLE'', v'))) \<longrightarrow>
      (\<exists>c'. load_from_dotenv c (Lines ls) = Inr c' \<and> use_iam_role c' = use_iam_role c)) \<and>
   (\<not> is_true_word (case env (ascii ''USE_IAM_ROLE'') of None \<Rightarrow> [] | Some w \<Rightarrow> w) \<longrightarrow>
      use_iam_role (load_from_env c env) = use_iam_role c)"
proof (intro conjI impI)
  assume a: "parse_line l = Inr (Some (ascii ''USE_IAM_ROLE'', v)) \<and>
    (\<forall>l'\<in>set rest. \<forall>v'. parse_line l' \<noteq> Inr (Some (ascii ''USE_IAM_ROLE'', v')))"
  obtain c0 where c0: "load_dotenv_lines c pre = Inr c0"
    using load_dotenv_lines_total by blast
  from a have c1: "load_dotenv_line c0 l = Inr (c0\<lparr>use_iam_role := is_true_word v\<rparr>)"
    by (simp add: load_dotenv_line_def dotenv_assign_flag)
  obtain c2 where c2: "load_dotenv_lines (c0\<lparr>use_iam_role := is_true_word v\<rparr>) rest = Inr c2"
    using load_dotenv_lines_total by blast
  with a have "use_iam_role c2 = use_iam_role (c0\<lparr>use_iam_role := is_true_word v\<rparr>)"
    by (intro load_dotenv_lines_flag_other) simp_all
  moreover from c0 c1 c2 have "load_from_dotenv c (Lines (pre @ l # rest)) = Inr c2"
    by (simp add: load_from_dotenv_def load_dotenv_lines_append)
  ultimately show "\<exists>c'. load_from_dotenv c (Lines (pre @ l # rest)) = Inr c' \<and>
            use_iam_role c' = is_true_word v"
    by simp
next
  assume a: "\<forall>l'\<in>set ls. \<forall>v'. parse_line l' \<noteq> Inr (Some (ascii ''USE_IAM_ROLE'', v'))"
  obtain c1 where c1: "load_dotenv_lines c ls = Inr c1"
    using load_dotenv_lines_total by blast
  with a have "use_iam_role c1 = use_iam_role c"
    by (rule load_dotenv_lines_flag_other)
  with c1 show "\<exists>c'. load_from_dotenv c (Lines ls) = Inr c' \<and> use_iam_role c' = use_iam_role c"
    by (simp add: load_from_dotenv_def)
next
  assume "\<not> is_true_word (case env (ascii ''USE_IAM_ROLE'') of None \<Rightarrow> [] | Some w \<Rightarrow> w)"
  then show "use_iam_role (load_from_env c env) = use_iam_role c"
    by (simp add: load_from_env_fields)
qed

theorem dotenv_flag_assigned_witness:
  "map_sum id use_iam_role
     (load_from_dotenv (set_use_iam_role init_config True)
        (Lines ([ascii ''# comment''] @ ascii ''USE_IAM_ROLE=No'' #
                [ascii ''AWS_REGION=eu-west-1''])))
     = Inr False \<and>
   map_sum id use_iam_role
     (load_from_dotenv init_config
        (Lines ([] @ (ascii ''USE_IAM_ROLE=true'' @ [0xA0]) # [])))
     = Inr True"
proof -
  have 1: "parse_line (ascii ''USE_IAM_ROLE=No'')
      = Inr (Some (ascii ''USE_IAM_ROLE'', ascii ''No''))"
    by (simp add: reader_defs)
  have "parse_line (ascii ''AWS_REGION=eu-west-1'')
      = Inr (Some (ascii ''AWS_REGION'', ascii ''eu-west-1''))"
    by (simp add: reader_defs)
  then have 2: "\<forall>l'\<in>set [ascii ''AWS_REGION=eu-west-1''].
      \<forall>v'. parse_line l' \<noteq> Inr (Some (ascii ''USE_IAM_ROLE'', v'))"
    by (simp add: ascii_def)
  have 3: "\<not> is_true_word (ascii ''No'')"
    by (simp add: is_true_word_def lower_def lower_cp_def ascii_def)
  from 1 2 have "parse_line (ascii ''USE_IAM_ROLE=No'')
        = Inr (Some (ascii ''USE_IAM_ROLE'', ascii ''No'')) \<and>
      (\<forall>l'\<in>set [ascii ''AWS_REGION=eu-west-1''].
        \<forall>v'. parse_line l' \<noteq> Inr (Some (ascii ''USE_IAM_ROLE'', v')))" ..
  with dotenv_flag_assigned [THEN conjunct1]
  have "\<exists>c'. load_from_dotenv (set_use_iam_role init_config True)
          (Lines ([ascii ''# comment''] @ ascii ''USE_IAM_ROLE=No'' #
                  [ascii ''AWS_REGION=eu-west-1''])) = Inr c' \<and>
        use_iam_role c' = is_true_word (ascii ''No'')"
    by (rule mp)
  with 3 have a: "map_sum id use_iam_role
     (load_from_dotenv (set_use_iam_role init_config True)
        (Lines ([ascii ''# comment''] @ ascii ''USE_IAM_ROLE=No'' #
                [ascii ''AWS_REGION=eu-west-1''])))
     = Inr False"
    by auto
  have 4: "parse_line (ascii ''USE_IAM_ROLE=true'' @ [0xA0])
      = Inr (Some (ascii ''USE_IAM_ROLE'', ascii ''true''))"
    by (simp add: reader_defs)
  have 5: "is_true_word (ascii ''true'')"
    by (simp add: is_true_word_def lower_def lower_cp_def ascii_def)
  from 4 have "parse_line (ascii ''USE_IAM_ROLE=true'' @ [0xA0])
        = Inr (Some (ascii ''USE_IAM_ROLE'', ascii ''true'')) \<and>
      (\<forall>l'\<in>set []. \<forall>v'. parse_line l' \<noteq> Inr (Some (ascii ''USE_IAM_ROLE'', v')))"
    by simp
  with dotenv_flag_assigned [THEN conjunct1]
  have "\<exists>c'. load_from_dotenv init_config
          (Lines ([] @ (ascii ''USE_IAM_ROLE=true'' @ [0xA0]) # [])) = Inr c' \<and>
        use_iam_role c' = is_true_word (ascii ''true'')"
    by (rule mp)
  with 5 have b: "map_sum id use_iam_role
     (load_from_dotenv init_config
        (Lines ([] @ (ascii ''USE_IAM_ROLE=true'' @ [0xA0]) # [])))
     = Inr True"
    by auto
  from a b show ?thesis ..
qed

text \<open>
  C6 as stated fails: with \<open>use_iam_role\<close> true before, reading a file whose only line
  is \<open>USE_IAM_ROLE=false\<close> makes it false.
\<close>

theorem dotenv_flag_counterexample:
  "use_iam_role (set_use_iam_role init_config True) \<and>
   load_from_dotenv (set_use_iam_role init_config True) (Lines [ascii ''USE_IAM_ROLE=false''])
     = Inr init_config"
  by (simp add: reader_defs is_true_word_def lower_def lower_cp_def init_config_def
      set_use_iam_role_def)

section \<open>Precedence of the environment over the file\<close>

text \<open>
  C2 at the failing input. The dotenv file holds \<open>AWS_BEDROCK_API_KEY=file-key\<close> and
  the environment is empty. The file reader sets the credential; \<open>setup_config()\<close>
  returns the configuration without it, because \<open>load_from_env\<close> assigns
  \<open>os.environ.get('AWS_BEDROCK_API_KEY')\<close>, which is \<open>None\<close>, without the test
  that guards the other fields (\<open>load_from_env_fields\<close>); and
  \<open>ensure_configured()\<close> succeeds in mode \<open>iam_role\<close>.
\<close>

theorem dotenv_credential_lost:
  "load_from_dotenv init_config (Lines [ascii ''AWS_BEDROCK_API_KEY=file-key''])
     = Inr (init_config\<lparr>aws_bedrock_api_key := Some (ascii ''file-key'')\<rparr>) \<and>
   map_sum id fst
     (setup_config init_config (Lines [ascii ''AWS_BEDROCK_API_KEY=file-key'']) Map.empty
        None None None None True True)
     = Inr init_config \<and>
   map_sum id fst
     (ensure_configured init_config (Lines [ascii ''AWS_BEDROCK_API_KEY=file-key'']) Map.empty)
     = Inr init_config \<and>
   aws_bedrock_api_key init_config = None \<and>
   authentication_mode init_config = ascii ''iam_role''"
proof -
  have rd: "load_from_dotenv init_config (Lines [ascii ''AWS_BEDROCK_API_KEY=file-key''])
     = Inr (init_config\<lparr>aws_bedrock_api_key := Some (ascii ''file-key'')\<rparr>)"
    by (simp add: reader_defs)
  have ev: "load_from_env (init_config\<lparr>aws_bedrock_api_key := Some (ascii ''file-key'')\<rparr>)
      Map.empty = init_config"
    by (simp add: load_from_env_def py_or_def truthy_def is_true_word_def lower_def
      init_config_def ascii_def)
  have init: "aws_bedrock_api_key init_config = None" "\<not> use_iam_role init_config"
    "aws_region init_config \<noteq> []"
    by (simp_all add: init_config_def ascii_def)
  have lambda: "\<not> in_lambda Map.empty"
    by (simp add: in_lambda_def py_or_def truthy_def)
  have pub: "fst (setup_environment init_config Map.empty) = None"
    by (simp add: setup_environment_returns publishable_def init_config_def truthy_def
        putenv_ok_def print_ok_def ascii_def)
  have 2: "map_sum id fst
     (setup_config init_config (Lines [ascii ''AWS_BEDROCK_API_KEY=file-key'']) Map.empty
        None None None None True True) = Inr init_config"
    using init lambda
    by (simp add: setup_config_def rd ev apply_explicit_def auto_detect_def truthy_def pub)
  have mode: "authentication_mode init_config = ascii ''iam_role''"
    using init by (simp add: mode_iam_role_iff truthy_def)
  have 3: "map_sum id fst
     (ensure_configured init_config (Lines [ascii ''AWS_BEDROCK_API_KEY=file-key'']) Map.empty)
     = Inr init_config"
    using init lambda mode
    by (simp add: ensure_configured_def is_configured_def rd ev validate_result pub)
  from rd 2 3 init(1) mode show ?thesis by (intro conjI)
qed

section \<open>Non-empty model identifier and region\<close>











end
